theory Spec2Isabelle
  imports Complex_Main
begin

section \<open>Wide events: the data model (src/core/types.ts)\<close>

text \<open>
  A JavaScript object with optional keys is a partial map. In the objects that are merged
  by spread (\<open>user\<close>, \<open>business\<close>, \<open>performance\<close>, \<open>feature_flags\<close>) a key can
  be absent, or present with the value \<open>undefined\<close>, or present with a value, and the
  spread tells the first from the second: \<open>None\<close> is the absent key,
  \<open>Some Undefined\<close> the key whose value is \<open>undefined\<close>. Elsewhere an optional field
  is an \<open>option\<close>, with \<open>None\<close> for \<open>undefined\<close>. Status codes, durations and
  clock readings are integers. The values of \<open>business\<close> are \<open>unknown\<close> in the
  source and a type parameter \<open>'v\<close> here.
\<close>

datatype Outcome = Success | Error | Warning

datatype 'a js = Undefined | Defined 'a

record RequestInfo =
  req_method :: string
  path :: string
  query :: "(string \<rightharpoonup> string) option"
  duration_ms :: int
  status_code :: int
  ip :: "string option"
  user_agent :: "string option"

record ServiceInfo =
  name :: string
  version :: string
  environment :: string
  region :: "string option"
  deployment_id :: "string option"

record User =
  user_id :: string
  email :: "string js option"
  role :: "string js option"
  subscription :: "string js option"
  account_age_days :: "int js option"

datatype PerfKey = db_queries | db_duration_ms | external_calls | cache_hits | cache_misses

type_synonym 'v Business = "string \<rightharpoonup> 'v js"
type_synonym Performance = "PerfKey \<rightharpoonup> int js"
type_synonym FeatureFlags = "string \<rightharpoonup> bool js"

record ErrorInfo =
  error_type :: string
  message :: string
  error_code :: "string option"
  stack :: "string option"
  retriable :: bool

record 'v WideEvent =
  event_id :: string
  trace_id :: string
  timestamp :: string
  request :: RequestInfo
  service :: ServiceInfo
  user :: "User option"
  business :: "'v Business option"
  performance :: "Performance option"
  error :: "ErrorInfo option"
  feature_flags :: "FeatureFlags option"
  outcome :: Outcome

record 'v WideEventConfig =
  serviceName :: string
  serviceVersion :: "string option"
  cfg_environment :: "string option"
  cfg_dataset :: "string option"
  cfg_token :: "string option"
  cfg_debug :: "bool option"
  shouldSample :: "('v WideEvent \<Rightarrow> bool) option"

record 'v EnrichmentData =
  data_user :: "User option"
  data_business :: "'v Business option"
  data_performance :: "Performance option"
  data_feature_flags :: "FeatureFlags option"

text \<open>A thrown JavaScript \<open>Error\<close>: its \<open>name\<close>, \<open>message\<close> and \<open>stack\<close>.\<close>

record JsError =
  err_name :: string
  err_message :: string
  err_stack :: "string option"

section \<open>JavaScript operators the source relies on\<close>

text \<open>
  A string operand of \<open>||\<close>, \<open>&&\<close>, \<open>!\<close> or \<open>if\<close> is falsy when it is
  \<open>undefined\<close> (or \<open>null\<close>) or the empty string; an object is always truthy.
\<close>

definition truthy :: "string option \<Rightarrow> bool" where
  "truthy s = (case s of None \<Rightarrow> False | Some t \<Rightarrow> t \<noteq> [])"

text \<open>\<open>a || b\<close> on optional strings: \<open>a\<close> when it is truthy, else \<open>b\<close>.\<close>

definition js_or :: "string option \<Rightarrow> string option \<Rightarrow> string option" where
  "js_or a b = (if truthy a then a else b)"

text \<open>\<open>a || d\<close> where the last operand \<open>d\<close> is a string that is always there.\<close>

definition js_or_str :: "string option \<Rightarrow> string \<Rightarrow> string" where
  "js_or_str a d = (case a of None \<Rightarrow> d | Some t \<Rightarrow> if t \<noteq> [] then t else d)"

text \<open>
  Object spread \<open>{ ...a, ...b }\<close>: the keys of both, the value of \<open>b\<close> where both
  have the key, also where that value is \<open>undefined\<close>; spreading an object that is
  itself \<open>undefined\<close> adds nothing.
\<close>

definition obj :: "('k \<rightharpoonup> 'a) option \<Rightarrow> ('k \<rightharpoonup> 'a)" where
  "obj m = (case m of None \<Rightarrow> Map.empty | Some f \<Rightarrow> f)"

definition spread :: "('k \<rightharpoonup> 'a) option \<Rightarrow> ('k \<rightharpoonup> 'a) option \<Rightarrow> ('k \<rightharpoonup> 'a)" where
  "spread a b = obj a ++ obj b"

text \<open>
  The spread of two user objects, field by field: a field the second object has wins,
  also when its value there is \<open>undefined\<close> (\<open>Some Undefined\<close>); a field it lacks
  (\<open>None\<close>) keeps the first object's value. \<open>id\<close> is required in the type, so the
  second object always has it.
\<close>

definition spread_field :: "'a option \<Rightarrow> 'a option \<Rightarrow> 'a option" where
  "spread_field old new = (case new of None \<Rightarrow> old | Some v \<Rightarrow> Some v)"

definition spread_user :: "User option \<Rightarrow> User \<Rightarrow> User" where
  "spread_user old new =
     (case old of
        None \<Rightarrow> new
      | Some u \<Rightarrow>
          \<lparr> user_id = user_id new,
            email = spread_field (email u) (email new),
            role = spread_field (role u) (role new),
            subscription = spread_field (subscription u) (subscription new),
            account_age_days = spread_field (account_age_days u) (account_age_days new) \<rparr>)"

section \<open>Identifiers (generateEventId and generateTraceId, src/core/WideEvent.ts)\<close>

text \<open>
  \<open>crypto.randomUUID()\<close> is an input: each function takes the UUID string the call
  would draw. \<open>replace(/-/g, "")\<close> removes the hyphens, \<open>slice(0, 16)\<close> keeps
  the first sixteen characters.
\<close>

definition strip_hyphens :: "string \<Rightarrow> string" where
  "strip_hyphens s = filter (\<lambda>c. c \<noteq> CHR ''-'') s"

definition generateEventId :: "string \<Rightarrow> string" where
  "generateEventId uuid = ''evt_'' @ take 16 (strip_hyphens uuid)"

definition generateTraceId :: "string \<Rightarrow> string" where
  "generateTraceId uuid = strip_hyphens uuid"

section \<open>The builder (class WideEventBuilder, src/core/WideEvent.ts)\<close>

record 'v WideEventBuilder =
  event :: "'v WideEvent"
  config :: "'v WideEventConfig"
  startTime :: int

text \<open>
  \<open>createBaseEvent\<close> reads the configuration, \<open>process.env\<close> (a map from
  variable names to strings), the clock (\<open>stamp\<close> is \<open>new Date().toISOString()\<close>)
  and two UUID draws.
\<close>

definition createBaseEvent ::
  "'v WideEventConfig \<Rightarrow> (string \<rightharpoonup> string) \<Rightarrow> string \<Rightarrow> string \<Rightarrow> string \<Rightarrow> 'v WideEvent" where
  "createBaseEvent cfg env stamp uuid1 uuid2 =
     \<lparr> event_id = generateEventId uuid1,
       trace_id = generateTraceId uuid2,
       timestamp = stamp,
       request = \<lparr> req_method = ''UNKNOWN'', path = ''/'', query = None, duration_ms = 0,
                   status_code = 200, ip = None, user_agent = None \<rparr>,
       service = \<lparr> name = serviceName cfg,
                   version = js_or_str (js_or (serviceVersion cfg) (env ''npm_package_version''))
                               ''0.0.0'',
                   environment = js_or_str (js_or (js_or (cfg_environment cfg) (env ''VERCEL_ENV''))
                                   (env ''NODE_ENV'')) ''development'',
                   region = js_or (env ''VERCEL_REGION'') (env ''AWS_REGION''),
                   deployment_id = env ''VERCEL_DEPLOYMENT_ID'' \<rparr>,
       user = None, business = None, performance = None, error = None,
       feature_flags = None,
       outcome = Success \<rparr>"

text \<open>The constructor; \<open>now\<close> is \<open>Date.now()\<close>.\<close>

definition new_WideEventBuilder ::
  "'v WideEventConfig \<Rightarrow> (string \<rightharpoonup> string) \<Rightarrow> int \<Rightarrow> string \<Rightarrow> string \<Rightarrow> string
     \<Rightarrow> 'v WideEventBuilder" where
  "new_WideEventBuilder cfg env now stamp uuid1 uuid2 =
     \<lparr> event = createBaseEvent cfg env stamp uuid1 uuid2, config = cfg, startTime = now \<rparr>"

text \<open>
  A Web API \<open>Request\<close>: its method, its URL as \<open>new URL(request.url)\<close> parses it
  (the path and the query pairs in order) and its headers, looked up by lower-case
  name. \<open>Object.fromEntries\<close> keeps the last value of a repeated key.
\<close>

record WebRequest =
  w_method :: string
  pathname :: string
  searchParams :: "(string \<times> string) list"
  headers :: "string \<rightharpoonup> string"

definition fromEntries :: "(string \<times> string) list \<Rightarrow> (string \<rightharpoonup> string)" where
  "fromEntries ps = map_of (rev ps)"

definition fromRequest ::
  "WebRequest \<Rightarrow> string option \<Rightarrow> string \<Rightarrow> 'v WideEventBuilder \<Rightarrow> 'v WideEventBuilder" where
  "fromRequest req traceId uuid b =
     b\<lparr> event := (event b)
         \<lparr> request := (request (event b))
             \<lparr> req_method := w_method req,
               path := pathname req,
               query := Some (fromEntries (searchParams req)),
               user_agent := js_or (headers req ''user-agent'') None \<rparr>,
           trace_id :=
             js_or_str (js_or (js_or traceId (headers req ''x-trace-id''))
                          (headers req ''x-request-id''))
               (generateTraceId uuid) \<rparr> \<rparr>"

record RawDetails =
  d_method :: string
  d_path :: string
  d_query :: "(string \<rightharpoonup> string) option"
  d_ip :: "string option"
  userAgent :: "string option"
  traceId :: "string option"

definition fromRawRequest :: "RawDetails \<Rightarrow> 'v WideEventBuilder \<Rightarrow> 'v WideEventBuilder" where
  "fromRawRequest details b =
     (let e1 = (event b)
           \<lparr> request := (request (event b))
               \<lparr> req_method := d_method details,
                 path := d_path details,
                 query := d_query details,
                 ip := d_ip details,
                 user_agent := userAgent details \<rparr> \<rparr>
      in b\<lparr> event :=
             (if truthy (traceId details) then e1\<lparr> trace_id := the (traceId details) \<rparr>
              else e1) \<rparr>)"

definition withUser :: "User option \<Rightarrow> 'v WideEventBuilder \<Rightarrow> 'v WideEventBuilder" where
  "withUser u b = b\<lparr> event := (event b)\<lparr> user := u \<rparr> \<rparr>"

definition withBusiness :: "'v Business option \<Rightarrow> 'v WideEventBuilder \<Rightarrow> 'v WideEventBuilder" where
  "withBusiness bs b =
     b\<lparr> event := (event b)\<lparr> business := Some (spread (business (event b)) bs) \<rparr> \<rparr>"

definition withPerformance :: "Performance option \<Rightarrow> 'v WideEventBuilder \<Rightarrow> 'v WideEventBuilder" where
  "withPerformance p b =
     b\<lparr> event := (event b)\<lparr> performance := Some (spread (performance (event b)) p) \<rparr> \<rparr>"

definition withFeatureFlags :: "FeatureFlags \<Rightarrow> 'v WideEventBuilder \<Rightarrow> 'v WideEventBuilder" where
  "withFeatureFlags flags b =
     b\<lparr> event := (event b)
         \<lparr> feature_flags := Some (spread (feature_flags (event b)) (Some flags)) \<rparr> \<rparr>"

text \<open>The error record both \<open>withError\<close> and \<open>setEventError\<close> build.\<close>

definition error_record :: "JsError \<Rightarrow> bool \<Rightarrow> ErrorInfo" where
  "error_record err retr =
     \<lparr> error_type = js_or_str (Some (err_name err)) ''Error'',
       message = err_message err,
       error_code = None,
       stack = err_stack err,
       retriable = retr \<rparr>"

text \<open>
  \<open>retriable = false\<close> is a default parameter: an argument left out (\<open>None\<close>)
  reads as \<open>False\<close>.
\<close>

definition default_false :: "bool option \<Rightarrow> bool" where
  "default_false r = (case r of None \<Rightarrow> False | Some v \<Rightarrow> v)"

definition withError :: "JsError \<Rightarrow> bool option \<Rightarrow> 'v WideEventBuilder \<Rightarrow> 'v WideEventBuilder" where
  "withError err retr b =
     b\<lparr> event := (event b)
         \<lparr> outcome := Error, error := Some (error_record err (default_false retr)) \<rparr> \<rparr>"

definition withStatusCode :: "int \<Rightarrow> 'v WideEventBuilder \<Rightarrow> 'v WideEventBuilder" where
  "withStatusCode statusCode b =
     (let e1 = (event b)\<lparr> request := (request (event b))\<lparr> status_code := statusCode \<rparr> \<rparr>
      in b\<lparr> event :=
             (if statusCode \<ge> 500 then e1\<lparr> outcome := Error \<rparr>
              else if statusCode \<ge> 400 then e1\<lparr> outcome := Warning \<rparr>
              else e1) \<rparr>)"

text \<open>
  The merge \<open>enrich\<close> and \<open>enrichEvent\<close> share: each of the four fields is
  replaced by a spread when the data has it (an object is truthy), and left alone
  otherwise.
\<close>

definition merge_enrichment :: "'v EnrichmentData \<Rightarrow> 'v WideEvent \<Rightarrow> 'v WideEvent" where
  "merge_enrichment d e =
     (let e1 = (case data_user d of None \<Rightarrow> e
                | Some u \<Rightarrow> e\<lparr> user := Some (spread_user (user e) u) \<rparr>);
          e2 = (case data_business d of None \<Rightarrow> e1
                | Some m \<Rightarrow> e1\<lparr> business := Some (spread (business e1) (Some m)) \<rparr>);
          e3 = (case data_performance d of None \<Rightarrow> e2
                | Some m \<Rightarrow> e2\<lparr> performance := Some (spread (performance e2) (Some m)) \<rparr>)
      in (case data_feature_flags d of None \<Rightarrow> e3
          | Some m \<Rightarrow> e3\<lparr> feature_flags := Some (spread (feature_flags e3) (Some m)) \<rparr>))"

definition enrich :: "'v EnrichmentData \<Rightarrow> 'v WideEventBuilder \<Rightarrow> 'v WideEventBuilder" where
  "enrich d b = b\<lparr> event := merge_enrichment d (event b) \<rparr>"

text \<open>\<open>build\<close> stamps the duration; \<open>now\<close> is \<open>Date.now()\<close>.\<close>

definition build :: "int \<Rightarrow> 'v WideEventBuilder \<Rightarrow> 'v WideEventBuilder" where
  "build now b =
     b\<lparr> event := (event b)\<lparr> request := (request (event b))\<lparr> duration_ms := now - startTime b \<rparr> \<rparr> \<rparr>"

definition getEvent :: "'v WideEventBuilder \<Rightarrow> 'v WideEvent" where
  "getEvent b = event b"

section \<open>The request-scoped context (eventStorage, src/core/WideEvent.ts)\<close>

text \<open>
  What the functions of the repository do to the world outside their objects: lines
  written to the console, timers set with \<open>setTimeout\<close> and calls of \<open>fetch\<close>.
  A console line keeps the data the message is formatted from.
\<close>

datatype 'v ConsoleLine =
    WarnOutsideContext
  | WarnTokenNotSet
  | LogEvent "'v WideEvent"
  | LogLocal Outcome string string int
  | ErrorFailedToSend int string
  | WarnLimitRemaining string
  | LogSent nat
  | ErrorSending string

record 'v FetchCall =
  url :: string
  http_method :: string
  authorization :: string
  content_type :: string
  body :: "'v WideEvent list"

text \<open>
  A live timer is its handle, its delay in milliseconds and its callback. The one
  callback the repository passes to \<open>setTimeout\<close> is \<open>() => this.flush()\<close>.
\<close>

datatype Callback = FlushCallback

record 'v Host =
  process_env :: "string \<rightharpoonup> string"
  console :: "'v ConsoleLine list"
  timers :: "(nat \<times> nat \<times> Callback) list"
  next_timer :: nat
  fetches :: "'v FetchCall list"

text \<open>
  \<open>eventStorage.getStore()\<close> returns the event bound on the running continuation,
  or \<open>undefined\<close>: the functions below take that value as \<open>store\<close> and return
  the event as they leave it (the store holds a reference, so the bound object itself is
  what they mutate).
\<close>

definition getCurrentEvent :: "'v WideEvent option \<Rightarrow> 'v WideEvent option" where
  "getCurrentEvent store = store"

definition enrichEvent ::
  "'v EnrichmentData \<Rightarrow> 'v WideEvent option \<Rightarrow> 'v Host \<Rightarrow> 'v WideEvent option \<times> 'v Host" where
  "enrichEvent d store h =
     (case store of
        None \<Rightarrow>
          (None,
           if process_env h ''NODE_ENV'' = Some ''development''
           then h\<lparr> console := console h @ [WarnOutsideContext] \<rparr>
           else h)
      | Some e \<Rightarrow> (Some (merge_enrichment d e), h))"

definition setEventError :: "JsError \<Rightarrow> bool option \<Rightarrow> 'v WideEvent option \<Rightarrow> 'v WideEvent option" where
  "setEventError err retr store =
     (case store of
        None \<Rightarrow> None
      | Some e \<Rightarrow>
          Some (e\<lparr> outcome := Error, error := Some (error_record err (default_false retr)) \<rparr>))"

text \<open>
  A request's calls, in the order they run. The middlewares bind the builder's own event
  (\<open>eventStorage.run(builder.getEvent(), ...)\<close>), so inside the scope the store is
  \<open>Some (event b)\<close> and what a context function does to the stored object is done to
  the builder's event.
\<close>

datatype 'v BuilderCall =
    FromRequest WebRequest "string option" string
  | FromRawRequest RawDetails
  | WithUser "User option"
  | WithBusiness "'v Business option"
  | WithPerformance "Performance option"
  | WithFeatureFlags FeatureFlags
  | WithError JsError "bool option"
  | WithStatusCode int
  | Enrich "'v EnrichmentData"
  | Build int
  | CtxEnrichEvent "'v EnrichmentData"
  | CtxSetEventError JsError "bool option"

fun call ::
  "'v BuilderCall \<Rightarrow> 'v WideEventBuilder \<times> 'v Host \<Rightarrow> 'v WideEventBuilder \<times> 'v Host" where
  "call (FromRequest req tid uuid) (b, h) = (fromRequest req tid uuid b, h)"
| "call (FromRawRequest details) (b, h) = (fromRawRequest details b, h)"
| "call (WithUser u) (b, h) = (withUser u b, h)"
| "call (WithBusiness bs) (b, h) = (withBusiness bs b, h)"
| "call (WithPerformance p) (b, h) = (withPerformance p b, h)"
| "call (WithFeatureFlags flags) (b, h) = (withFeatureFlags flags b, h)"
| "call (WithError err retr) (b, h) = (withError err retr b, h)"
| "call (WithStatusCode c) (b, h) = (withStatusCode c b, h)"
| "call (Enrich d) (b, h) = (enrich d b, h)"
| "call (Build now) (b, h) = (build now b, h)"
| "call (CtxEnrichEvent d) (b, h) =
     (case enrichEvent d (Some (event b)) h of
        (None, h') \<Rightarrow> (b, h')
      | (Some e, h') \<Rightarrow> (b\<lparr> event := e \<rparr>, h'))"
| "call (CtxSetEventError err retr) (b, h) =
     (case setEventError err retr (Some (event b)) of
        None \<Rightarrow> (b, h)
      | Some e \<Rightarrow> (b\<lparr> event := e \<rparr>, h))"

definition calls ::
  "'v BuilderCall list \<Rightarrow> 'v WideEventBuilder \<times> 'v Host \<Rightarrow> 'v WideEventBuilder \<times> 'v Host" where
  "calls cs s = foldl (\<lambda>t c. call c t) s cs"

text \<open>What a call passes for each of the three merged fields (nothing, for most calls).\<close>

fun business_input :: "'v BuilderCall \<Rightarrow> 'v Business" where
  "business_input (WithBusiness bs) = obj bs"
| "business_input (Enrich d) = obj (data_business d)"
| "business_input (CtxEnrichEvent d) = obj (data_business d)"
| "business_input _ = Map.empty"

fun performance_input :: "'v BuilderCall \<Rightarrow> Performance" where
  "performance_input (WithPerformance p) = obj p"
| "performance_input (Enrich d) = obj (data_performance d)"
| "performance_input (CtxEnrichEvent d) = obj (data_performance d)"
| "performance_input _ = Map.empty"

fun feature_flags_input :: "'v BuilderCall \<Rightarrow> FeatureFlags" where
  "feature_flags_input (WithFeatureFlags flags) = flags"
| "feature_flags_input (Enrich d) = obj (data_feature_flags d)"
| "feature_flags_input (CtxEnrichEvent d) = obj (data_feature_flags d)"
| "feature_flags_input _ = Map.empty"

text \<open>
  The specification's merge result, in its own words: the key-wise last-write-wins union
  of a list of mappings gives each key the value of the last mapping that has the key.
\<close>

definition lww_union :: "('k \<rightharpoonup> 'a) list \<Rightarrow> ('k \<rightharpoonup> 'a)" where
  "lww_union ms k =
     (case filter (\<lambda>m. m k \<noteq> None) (rev ms) of [] \<Rightarrow> None | m # _ \<Rightarrow> m k)"

text \<open>The calls that set the request fields, the only ones that write \<open>trace_id\<close>.\<close>

fun sets_request :: "'v BuilderCall \<Rightarrow> bool" where
  "sets_request (FromRequest _ _ _) = True"
| "sets_request (FromRawRequest _) = True"
| "sets_request _ = False"

section \<open>Tail sampling (src/core/sampling.ts)\<close>




definition keepAll :: bool where
  "keepAll = True"

definition keepOnlyErrors :: "'v WideEvent \<Rightarrow> bool" where
  "keepOnlyErrors ev =
     (outcome ev = Error \<or> status_code (request ev) \<ge> 400 \<or> error ev \<noteq> None)"

section \<open>The Axiom transport (src/adapters/axiom.ts)\<close>

record 'v AxiomAdapter =
  dataset :: string
  token :: string
  debug :: bool
  baseUrl :: string
  pendingEvents :: "'v WideEvent list"
  flushTimeout :: "nat option"

text \<open>
  \<open>setTimeout\<close> hands out a fresh handle and records the live timer with its delay and
  callback; \<open>clearTimeout\<close> removes it.
\<close>

definition setTimeout :: "Callback \<Rightarrow> nat \<Rightarrow> 'v Host \<Rightarrow> nat \<times> 'v Host" where
  "setTimeout cb delay h =
     (next_timer h,
      h\<lparr> timers := timers h @ [(next_timer h, delay, cb)],
         next_timer := Suc (next_timer h) \<rparr>)"

definition clearTimeout :: "nat \<Rightarrow> 'v Host \<Rightarrow> 'v Host" where
  "clearTimeout t h = h\<lparr> timers := filter (\<lambda>p. fst p \<noteq> t) (timers h) \<rparr>"

definition new_AxiomAdapter :: "'v WideEventConfig \<Rightarrow> 'v Host \<Rightarrow> 'v AxiomAdapter \<times> 'v Host" where
  "new_AxiomAdapter cfg h =
     (let a = \<lparr> dataset = js_or_str (js_or (cfg_dataset cfg) (process_env h ''AXIOM_DATASET''))
                            ''production'',
                 token = js_or_str (js_or (cfg_token cfg) (process_env h ''AXIOM_TOKEN'')) [],
                 debug = (case cfg_debug cfg of None \<Rightarrow> False | Some d \<Rightarrow> d),
                 baseUrl = ''https://api.axiom.co'',
                 pendingEvents = [],
                 flushTimeout = None \<rparr>
      in (a,
          if token a = [] \<and> process_env h ''NODE_ENV'' = Some ''production''
          then h\<lparr> console := console h @ [WarnTokenNotSet] \<rparr>
          else h))"

text \<open>
  \<open>JSON.stringify\<close> throws a \<open>TypeError\<close> on a BigInt and on a cyclic structure, and
  the \<open>unknown\<close> values of \<open>business\<close> can be either. Which events it throws on is
  the parameter \<open>throws\<close> of the functions below; on an array of events it throws when
  it throws on one of them.
\<close>

datatype Thrown = TypeError

text \<open>
  \<open>flush\<close> is asynchronous. This is the part that runs at the call, up to the
  \<open>await\<close> of \<open>fetch\<close>. The argument \<open>JSON.stringify(events)\<close> is evaluated before
  \<open>fetch\<close> is called and inside the \<open>try\<close>: when it throws, the \<open>catch\<close> writes
  its line and no request is made. Otherwise the call of \<open>fetch\<close> is recorded with the
  batch it carries.
\<close>

definition flush ::
  "('v WideEvent \<Rightarrow> bool) \<Rightarrow> 'v AxiomAdapter \<Rightarrow> 'v Host \<Rightarrow> 'v AxiomAdapter \<times> 'v Host" where
  "flush throws a h =
     (let (a1, h1) = (case flushTimeout a of
                        None \<Rightarrow> (a, h)
                      | Some t \<Rightarrow> (a\<lparr> flushTimeout := None \<rparr>, clearTimeout t h))
      in if length (pendingEvents a1) = 0 then (a1, h1)
         else if token a1 = [] then (a1\<lparr> pendingEvents := [] \<rparr>, h1)
         else
           (let events = pendingEvents a1;
                a2 = a1\<lparr> pendingEvents := [] \<rparr>
            in if list_ex throws events
               then (a2, h1\<lparr> console := console h1 @ [ErrorSending ''TypeError''] \<rparr>)
               else
                 (a2,
                  h1\<lparr> fetches := fetches h1 @
                        [\<lparr> url = baseUrl a1 @ ''/v1/datasets/'' @ dataset a1 @ ''/ingest'',
                           http_method = ''POST'',
                           authorization = ''Bearer '' @ token a1,
                           content_type = ''application/json'',
                           body = events \<rparr>] \<rparr>)))"

text \<open>
  How the awaited \<open>fetch\<close> settles: it rejects (a network exception), or it resolves
  to a response, whose \<open>text()\<close> may itself reject (\<open>Inl\<close>).
\<close>

record Response =
  resp_ok :: bool
  resp_status :: int
  resp_text :: "string + string"
  limit_remaining :: "string option"

datatype FetchResult = Rejected string | Resolved Response

text \<open>
  The rest of \<open>flush\<close>, run when the fetch settles; \<open>events\<close> is the batch the
  suspended call holds in its local variable.
\<close>

definition flush_resume ::
  "FetchResult \<Rightarrow> 'v WideEvent list \<Rightarrow> 'v AxiomAdapter \<Rightarrow> 'v Host \<Rightarrow> 'v AxiomAdapter \<times> 'v Host" where
  "flush_resume res events a h =
     (case res of
        Rejected why \<Rightarrow> (a, h\<lparr> console := console h @ [ErrorSending why] \<rparr>)
      | Resolved response \<Rightarrow>
          if \<not> resp_ok response then
            (case resp_text response of
               Inl why \<Rightarrow> (a, h\<lparr> console := console h @ [ErrorSending why] \<rparr>)
             | Inr errorText \<Rightarrow>
                 (a, h\<lparr> console := console h @
                        [ErrorFailedToSend (resp_status response) errorText] @
                        (case limit_remaining response of
                           None \<Rightarrow> []
                         | Some remaining \<Rightarrow>
                             if remaining \<noteq> [] then [WarnLimitRemaining remaining] else []) \<rparr>))
          else if debug a then (a, h\<lparr> console := console h @ [LogSent (length events)] \<rparr>)
          else (a, h))"

text \<open>
  \<open>send\<close> is synchronous. With \<open>debug\<close> on it first serialises the event for the
  console, outside any \<open>try\<close>: when that throws, \<open>send\<close> throws (\<open>Inl\<close>) before
  anything is queued. The call \<open>this.flush()\<close> is not awaited: it runs \<open>flush\<close> up to
  its \<open>await\<close>.
\<close>

definition send ::
  "('v WideEvent \<Rightarrow> bool) \<Rightarrow> 'v WideEvent \<Rightarrow> 'v AxiomAdapter \<Rightarrow> 'v Host
     \<Rightarrow> Thrown + 'v AxiomAdapter \<times> 'v Host" where
  "send throws ev a h =
     (case (if debug a
            then (if throws ev then Inl TypeError
                  else Inr (h\<lparr> console := console h @ [LogEvent ev] \<rparr>))
            else Inr h) of
        Inl thrown \<Rightarrow> Inl thrown
      | Inr h1 \<Rightarrow>
          Inr (if token a = [] then
                 (a,
                  if process_env h1 ''NODE_ENV'' = Some ''development''
                  then h1\<lparr> console := console h1 @
                            [LogLocal (outcome ev) (req_method (request ev)) (path (request ev))
                               (duration_ms (request ev))] \<rparr>
                  else h1)
               else
                 (let a1 = a\<lparr> pendingEvents := pendingEvents a @ [ev] \<rparr>
                  in if length (pendingEvents a1) \<ge> 10 then flush throws a1 h1
                     else if flushTimeout a1 = None then
                       (let (t, h2) = setTimeout FlushCallback 100 h1
                        in (a1\<lparr> flushTimeout := Some t \<rparr>, h2))
                     else (a1, h1))))"

text \<open>
  When a live timer fires, the runtime retires it and runs its callback; the callback
  \<open>() => this.flush()\<close> calls \<open>flush\<close>.
\<close>

fun run_callback ::
  "('v WideEvent \<Rightarrow> bool) \<Rightarrow> Callback \<Rightarrow> 'v AxiomAdapter \<Rightarrow> 'v Host \<Rightarrow> 'v AxiomAdapter \<times> 'v Host" where
  "run_callback throws FlushCallback a h = flush throws a h"

definition timer_fires ::
  "('v WideEvent \<Rightarrow> bool) \<Rightarrow> nat \<Rightarrow> 'v AxiomAdapter \<Rightarrow> 'v Host \<Rightarrow> 'v AxiomAdapter \<times> 'v Host" where
  "timer_fires throws t a h =
     (case find (\<lambda>p. fst p = t) (timers h) of
        None \<Rightarrow> (a, h)
      | Some (_, _, cb) \<Rightarrow>
          run_callback throws cb a (h\<lparr> timers := filter (\<lambda>p. fst p \<noteq> t) (timers h) \<rparr>))"

text \<open>
  The life of one adapter: calls of \<open>send\<close> and \<open>flush\<close>, timers firing and
  fetches settling (the \<open>k\<close>-th call of \<open>fetch\<close>, with the batch it carried), in any
  order, from a host with no timer set and no fetch made. A \<open>send\<close> that throws
  leaves the adapter as it was.
\<close>

datatype 'v Step =
    Send "'v WideEvent"
  | Flush
  | TimerFires nat
  | FetchSettles nat FetchResult

fun step ::
  "('v WideEvent \<Rightarrow> bool) \<Rightarrow> 'v Step \<Rightarrow> 'v AxiomAdapter \<times> 'v Host \<Rightarrow> 'v AxiomAdapter \<times> 'v Host" where
  "step throws (Send ev) (a, h) =
     (case send throws ev a h of Inl thrown \<Rightarrow> (a, h) | Inr s \<Rightarrow> s)"
| "step throws Flush (a, h) = flush throws a h"
| "step throws (TimerFires t) (a, h) = timer_fires throws t a h"
| "step throws (FetchSettles k res) (a, h) =
     (if k < length (fetches h) then flush_resume res (body (fetches h ! k)) a h else (a, h))"

definition run ::
  "('v WideEvent \<Rightarrow> bool) \<Rightarrow> 'v Step list \<Rightarrow> 'v AxiomAdapter \<times> 'v Host \<Rightarrow> 'v AxiomAdapter \<times> 'v Host" where
  "run throws steps s = foldl (\<lambda>t st. step throws st t) s steps"

definition fresh_host :: "(string \<rightharpoonup> string) \<Rightarrow> 'v Host" where
  "fresh_host env =
     \<lparr> process_env = env, console = [], timers = [], next_timer = 0, fetches = [] \<rparr>"

definition boot :: "'v WideEventConfig \<Rightarrow> (string \<rightharpoonup> string) \<Rightarrow> 'v AxiomAdapter \<times> 'v Host" where
  "boot cfg env = new_AxiomAdapter cfg (fresh_host env)"

text \<open>
  What holds of the adapter between any two of these steps: the live timers are exactly
  the one \<open>flushTimeout\<close> refers to, if any, and its callback is the flush; without a
  token nothing is queued; and fewer than ten events wait.
\<close>

definition adapter_inv :: "'v AxiomAdapter \<times> 'v Host \<Rightarrow> bool" where
  "adapter_inv s =
     (timers (snd s) =
        (case flushTimeout (fst s) of None \<Rightarrow> [] | Some t \<Rightarrow> [(t, 100, FlushCallback)]) \<and>
      (token (fst s) = [] \<longrightarrow> pendingEvents (fst s) = []) \<and>
      length (pendingEvents (fst s)) < 10)"

section \<open>Example inputs\<close>

text \<open>
  Concrete values at which the theorems below are evaluated. Business values are strings,
  numbers, booleans and BigInts.
\<close>

datatype JsValue = JString string | JNumber int | JBool bool | JBigInt int

definition cfg0 :: "JsValue WideEventConfig" where
  "cfg0 = \<lparr> serviceName = ''svc'', serviceVersion = None, cfg_environment = None,
            cfg_dataset = None, cfg_token = Some ''xapt-1'', cfg_debug = None,
            shouldSample = None \<rparr>"

definition b0 :: "JsValue WideEventBuilder" where
  "b0 = new_WideEventBuilder cfg0 Map.empty 1000 ''2025-01-10T12:00:00.000Z''
          ''11111111-2222-3333-4444-555555555555'' ''aaaaaaaa-bbbb-cccc-dddd-eeeeeeeeeeee''"

definition host0 :: "JsValue Host" where
  "host0 = fresh_host Map.empty"

definition boom :: JsError where
  "boom = \<lparr> err_name = ''Error'', err_message = ''db timeout'', err_stack = None \<rparr>"

definition req0 :: WebRequest where
  "req0 = \<lparr> w_method = ''GET'', pathname = ''/api/users'', searchParams = [],
            headers = Map.empty \<rparr>"

definition merge_calls0 :: "JsValue BuilderCall list" where
  "merge_calls0 =
     [WithBusiness (Some [''dealId'' \<mapsto> Defined (JString ''deal_1''), ''action'' \<mapsto> Defined (JString ''open'')]),
      CtxEnrichEvent \<lparr> data_user = None, data_business = Some [''action'' \<mapsto> Defined (JString ''quote_sent'')],
                       data_performance = Some [db_queries \<mapsto> Defined 3], data_feature_flags = None \<rparr>,
      WithPerformance (Some [db_queries \<mapsto> Defined 5, cache_hits \<mapsto> Defined 1]),
      WithFeatureFlags [''beta'' \<mapsto> Defined True],
      WithBusiness None,
      WithPerformance (Some [cache_hits \<mapsto> Undefined])]"

definition request_calls0 :: "JsValue BuilderCall list" where
  "request_calls0 =
     [WithUser None, WithStatusCode 404, CtxSetEventError boom None, Build 1250]"


definition user0 :: User where
  "user0 = \<lparr> user_id = ''user_123'', email = Some (Defined ''user@example.com''), role = None,
             subscription = Some (Defined ''enterprise''),
             account_age_days = Some (Defined 30) \<rparr>"



definition plain_event :: "JsValue WideEvent" where
  "plain_event = event (build 1500 (withStatusCode 200 b0))"

definition enriched0 :: "JsValue WideEvent" where
  "enriched0 = event (withBusiness (Some [''dealId'' \<mapsto> Defined (JString ''deal_1'')]) (withUser (Some user0) b0))"

definition data0 :: "JsValue EnrichmentData" where
  "data0 = \<lparr> data_user = Some \<lparr> user_id = ''user_123'', email = Some Undefined,
                                  role = Some (Defined ''admin''),
                                  subscription = Some (Defined ''premium''),
                                  account_age_days = None \<rparr>,
             data_business = Some [''action'' \<mapsto> Defined (JString ''quote_sent'')],
             data_performance = None,
             data_feature_flags = Some [''beta'' \<mapsto> Defined True] \<rparr>"



text \<open>
  For these values \<open>JSON.stringify\<close> throws exactly on an event one of whose business
  values is a BigInt.
\<close>

definition is_bigint :: "JsValue js \<Rightarrow> bool" where
  "is_bigint v = (case v of Defined (JBigInt n) \<Rightarrow> True | _ \<Rightarrow> False)"

definition throws_bigint :: "JsValue WideEvent \<Rightarrow> bool" where
  "throws_bigint e = (\<exists>v \<in> ran (obj (business e)). is_bigint v)"

definition bigint_event :: "JsValue WideEvent" where
  "bigint_event = event (withBusiness (Some [''amount'' \<mapsto> Defined (JBigInt 10)]) b0)"


section \<open>Status codes and errors\<close>

text \<open>
  C1 (as amended). \<open>withStatusCode code\<close> sets \<open>request.status_code\<close> to the code
  and then sets the outcome from the code alone: 500 and above gives \<open>Error\<close>, 400 to
  499 gives \<open>Warning\<close> whatever the outcome was, below 400 leaves the outcome as it was.
  An event leaves the call with outcome \<open>Success\<close> exactly when it entered with it
  and the code is below 400, and with \<open>Error\<close> exactly when the code is 500 or more,
  or it entered with \<open>Error\<close> and the code is below 400.
\<close>

theorem withStatusCode_sets_outcome:
  "status_code (request (event (withStatusCode c b))) = c \<and>
   outcome (event (withStatusCode c b)) =
     (if c \<ge> 500 then Error else if c \<ge> 400 then Warning else outcome (event b)) \<and>
   (outcome (event (withStatusCode c b)) = Success) = (c < 400 \<and> outcome (event b) = Success) \<and>
   (outcome (event (withStatusCode c b)) = Error) =
     (c \<ge> 500 \<or> (c < 400 \<and> outcome (event b) = Error))"
  by (simp add: withStatusCode_def Let_def)

text \<open>
  On a fresh builder 503 gives \<open>Error\<close> and 404 gives \<open>Warning\<close>; after
  \<open>withError\<close>, 200 leaves \<open>Error\<close>.
\<close>

theorem withStatusCode_sets_outcome_witness:
  "outcome (event (withStatusCode 503 b0)) = Error \<and>
   outcome (event (withStatusCode 404 b0)) = Warning \<and>
   status_code (request (event (withStatusCode 404 b0))) = 404 \<and>
   outcome (event (withStatusCode 200 (withError boom None b0))) = Error"
proof -
  have s: "outcome (event b0) = Success"
    by (simp add: b0_def new_WideEventBuilder_def createBaseEvent_def)
  have e: "outcome (event (withError boom None b0)) = Error"
    by (simp add: withError_def)
  show ?thesis
    using withStatusCode_sets_outcome [of 503 b0] withStatusCode_sets_outcome [of 404 b0]
      withStatusCode_sets_outcome [of 200 "withError boom None b0"]
    by (simp add: s e)
qed

text \<open>
  The claim as first stated fails: an event whose outcome \<open>withError\<close> has set to
  \<open>Error\<close> leaves \<open>withStatusCode 404\<close> with outcome \<open>Warning\<close>.
\<close>

theorem withStatusCode_downgrades_error:
  "outcome (event (withError boom None b0)) = Error \<and>
   outcome (event (withStatusCode 404 (withError boom None b0))) = Warning"
  by (simp add: withStatusCode_def withError_def Let_def)

text \<open>
  C7. \<open>withError error retriable\<close> sets the outcome to \<open>Error\<close> whatever it was and
  sets \<open>error\<close> to the record of the error's name (\<open>Error\<close> when the name is empty),
  message and stack, with no code, and the retriable flag, \<open>False\<close> when the argument
  is left out. \<open>setEventError\<close> leaves an event in scope exactly as \<open>withError\<close>
  leaves the builder's event, and does nothing when no event is in scope.
\<close>

theorem withError_sets_error:
  "outcome (event (withError err retr b)) = Error \<and>
   error (event (withError err retr b)) =
     Some \<lparr> error_type = (if err_name err = [] then ''Error'' else err_name err),
            message = err_message err, error_code = None, stack = err_stack err,
            retriable = (case retr of None \<Rightarrow> False | Some r \<Rightarrow> r) \<rparr> \<and>
   event (withError err retr b) =
     (event b)\<lparr> outcome := Error, error := error (event (withError err retr b)) \<rparr> \<and>
   setEventError err retr (Some (event b)) = Some (event (withError err retr b)) \<and>
   setEventError err retr (None :: 'v WideEvent option) = None"
  by (simp add: withError_def setEventError_def error_record_def js_or_str_def default_false_def)

text \<open>
  At the thrown error \<open>db timeout\<close>, on a builder whose outcome a 404 has already made
  \<open>Warning\<close>.
\<close>

theorem withError_sets_error_witness:
  "outcome (event (withStatusCode 404 b0)) = Warning \<and>
   outcome (event (withError boom None (withStatusCode 404 b0))) = Error \<and>
   error (event (withError boom None (withStatusCode 404 b0))) =
     Some \<lparr> error_type = ''Error'', message = ''db timeout'', error_code = None, stack = None,
            retriable = False \<rparr>"
proof -
  note t = withError_sets_error [of boom None "withStatusCode 404 b0"]
  have 1: "outcome (event (withError boom None (withStatusCode 404 b0))) = Error"
    using t by (rule conjunct1)
  have 2: "error (event (withError boom None (withStatusCode 404 b0))) =
     Some \<lparr> error_type = (if err_name boom = [] then ''Error'' else err_name boom),
            message = err_message boom, error_code = None, stack = err_stack boom,
            retriable = (case None of None \<Rightarrow> False | Some r \<Rightarrow> r) \<rparr>"
    using t by (rule conjunct1 [OF conjunct2])
  have 3: "outcome (event (withStatusCode 404 b0)) = Warning"
    by (simp add: withStatusCode_def Let_def)
  show ?thesis
    unfolding 1 2 3 by (simp add: boom_def)
qed

section \<open>Merging enrichment data\<close>

text \<open>The spread of a list of mappings, one after the other, is their last-write-wins union.\<close>

lemma lww_union_snoc: "lww_union (ms @ [m]) = lww_union ms ++ m"
proof
  fix k
  show "lww_union (ms @ [m]) k = (lww_union ms ++ m) k"
    by (cases "m k") (simp_all add: lww_union_def map_add_def)
qed

lemma lww_union_single: "lww_union [m] = m"
proof
  fix k
  show "lww_union [m] k = m k"
    by (cases "m k") (simp_all add: lww_union_def)
qed

lemma foldl_map_add_lww: "foldl (++) m0 ms = lww_union (m0 # ms)"
proof (induction ms rule: rev_induct)
  case Nil
  show ?case by (simp add: lww_union_single)
next
  case (snoc m ms)
  have "lww_union (m0 # ms @ [m]) = lww_union ((m0 # ms) @ [m])" by simp
  also have "\<dots> = lww_union (m0 # ms) ++ m" by (rule lww_union_snoc)
  finally show ?case using snoc by simp
qed

lemma obj_Some: "obj (Some m) = m"
  by (simp add: obj_def)

lemma merge_enrichment_business:
  "obj (business (merge_enrichment d e)) = obj (business e) ++ obj (data_business d)"
  by (simp add: merge_enrichment_def Let_def spread_def obj_def split: option.splits)

lemma merge_enrichment_performance:
  "obj (performance (merge_enrichment d e)) = obj (performance e) ++ obj (data_performance d)"
  by (simp add: merge_enrichment_def Let_def spread_def obj_def split: option.splits)

lemma merge_enrichment_feature_flags:
  "obj (feature_flags (merge_enrichment d e)) = obj (feature_flags e) ++ obj (data_feature_flags d)"
  by (simp add: merge_enrichment_def Let_def spread_def obj_def split: option.splits)

lemma call_business:
  "obj (business (event (fst (call c s)))) = obj (business (event (fst s))) ++ business_input c"
proof (cases s)
  case (Pair b h)
  show ?thesis unfolding Pair
    by (cases c)
       (simp_all add: fromRequest_def fromRawRequest_def withUser_def withBusiness_def
          withPerformance_def withFeatureFlags_def withError_def withStatusCode_def enrich_def
          build_def enrichEvent_def setEventError_def Let_def spread_def obj_Some
          merge_enrichment_business)
qed

lemma call_performance:
  "obj (performance (event (fst (call c s)))) =
     obj (performance (event (fst s))) ++ performance_input c"
proof (cases s)
  case (Pair b h)
  show ?thesis unfolding Pair
    by (cases c)
       (simp_all add: fromRequest_def fromRawRequest_def withUser_def withBusiness_def
          withPerformance_def withFeatureFlags_def withError_def withStatusCode_def enrich_def
          build_def enrichEvent_def setEventError_def Let_def spread_def obj_Some
          merge_enrichment_performance)
qed

lemma call_feature_flags:
  "obj (feature_flags (event (fst (call c s)))) =
     obj (feature_flags (event (fst s))) ++ feature_flags_input c"
proof (cases s)
  case (Pair b h)
  show ?thesis unfolding Pair
    by (cases c)
       (simp_all add: fromRequest_def fromRawRequest_def withUser_def withBusiness_def
          withPerformance_def withFeatureFlags_def withError_def withStatusCode_def enrich_def
          build_def enrichEvent_def setEventError_def Let_def spread_def obj_Some
          merge_enrichment_feature_flags)
qed

lemma calls_snoc: "calls (cs @ [c]) s = call c (calls cs s)"
  by (simp add: calls_def)

lemma calls_business:
  "obj (business (event (fst (calls cs s)))) =
     foldl (++) (obj (business (event (fst s)))) (map business_input cs)"
  by (induction cs rule: rev_induct) (simp_all add: calls_snoc call_business, simp add: calls_def)

lemma calls_performance:
  "obj (performance (event (fst (calls cs s)))) =
     foldl (++) (obj (performance (event (fst s)))) (map performance_input cs)"
  by (induction cs rule: rev_induct) (simp_all add: calls_snoc call_performance, simp add: calls_def)

lemma calls_feature_flags:
  "obj (feature_flags (event (fst (calls cs s)))) =
     foldl (++) (obj (feature_flags (event (fst s)))) (map feature_flags_input cs)"
  by (induction cs rule: rev_induct) (simp_all add: calls_snoc call_feature_flags, simp add: calls_def)

lemma dom_foldl_map_add: "dom m0 \<subseteq> dom (foldl (++) m0 ms)"
  by (induction ms rule: rev_induct) auto

text \<open>
  C3. Whatever the builder's event holds at the start and whatever calls follow
  (\<open>withBusiness\<close>, \<open>withPerformance\<close>, \<open>withFeatureFlags\<close>, \<open>enrich\<close>,
  \<open>enrichEvent\<close> with the event in scope, and any other call, which passes nothing),
  each of \<open>business\<close>, \<open>performance\<close> and \<open>feature_flags\<close> ends as the key-wise
  last-write-wins union of the mapping it started as and the mappings the calls passed,
  in call order; every key the field had at the start is still there. A key passed with
  the value \<open>undefined\<close> is a key of the mapping passed: it is written like any other,
  so it stays a key and holds \<open>undefined\<close> until a later call writes it again.
\<close>

theorem merges_are_lww_union:
  "obj (business (event (fst (calls cs (b, h))))) =
     lww_union (obj (business (event b)) # map business_input cs) \<and>
   obj (performance (event (fst (calls cs (b, h))))) =
     lww_union (obj (performance (event b)) # map performance_input cs) \<and>
   obj (feature_flags (event (fst (calls cs (b, h))))) =
     lww_union (obj (feature_flags (event b)) # map feature_flags_input cs) \<and>
   dom (obj (business (event b))) \<subseteq> dom (obj (business (event (fst (calls cs (b, h)))))) \<and>
   dom (obj (performance (event b))) \<subseteq> dom (obj (performance (event (fst (calls cs (b, h)))))) \<and>
   dom (obj (feature_flags (event b))) \<subseteq>
     dom (obj (feature_flags (event (fst (calls cs (b, h))))))"
proof -
  have b: "obj (business (event (fst (calls cs (b, h))))) =
       foldl (++) (obj (business (event b))) (map business_input cs)"
    using calls_business [of cs "(b, h)"] by simp
  have p: "obj (performance (event (fst (calls cs (b, h))))) =
       foldl (++) (obj (performance (event b))) (map performance_input cs)"
    using calls_performance [of cs "(b, h)"] by simp
  have f: "obj (feature_flags (event (fst (calls cs (b, h))))) =
       foldl (++) (obj (feature_flags (event b))) (map feature_flags_input cs)"
    using calls_feature_flags [of cs "(b, h)"] by simp
  show ?thesis
    unfolding b p f by (simp add: foldl_map_add_lww [symmetric] dom_foldl_map_add)
qed

text \<open>
  Six calls on a fresh builder: the second write of \<open>action\<close> and of
  \<open>db_queries\<close> wins, \<open>dealId\<close> survives the later merges, and
  \<open>cache_hits\<close>, written as 1 and then passed as \<open>undefined\<close>, is still a key and
  holds \<open>undefined\<close>.
\<close>

theorem merges_are_lww_union_witness:
  "obj (business (event (fst (calls merge_calls0 (b0, host0))))) ''dealId'' = Some (Defined (JString ''deal_1'')) \<and>
   obj (business (event (fst (calls merge_calls0 (b0, host0))))) ''action'' = Some (Defined (JString ''quote_sent'')) \<and>
   obj (performance (event (fst (calls merge_calls0 (b0, host0))))) db_queries = Some (Defined 5) \<and>
   obj (performance (event (fst (calls merge_calls0 (b0, host0))))) cache_hits = Some Undefined \<and>
   obj (feature_flags (event (fst (calls merge_calls0 (b0, host0))))) ''beta'' = Some (Defined True)"
proof -
  have e: "business (event b0) = None" "performance (event b0) = None"
    "feature_flags (event b0) = None"
    by (simp_all add: b0_def new_WideEventBuilder_def createBaseEvent_def)
  note t = merges_are_lww_union [of merge_calls0 b0 host0]
  have B: "obj (business (event (fst (calls merge_calls0 (b0, host0))))) =
      lww_union (obj (business (event b0)) # map business_input merge_calls0)"
    using t by blast
  have P: "obj (performance (event (fst (calls merge_calls0 (b0, host0))))) =
      lww_union (obj (performance (event b0)) # map performance_input merge_calls0)"
    using t by blast
  have F: "obj (feature_flags (event (fst (calls merge_calls0 (b0, host0))))) =
      lww_union (obj (feature_flags (event b0)) # map feature_flags_input merge_calls0)"
    using t by blast
  show ?thesis
    unfolding B P F by (auto simp add: e merge_calls0_def lww_union_def obj_def)
qed

section \<open>Event and trace identifiers\<close>

lemma call_event_id: "event_id (event (fst (call c s))) = event_id (event (fst s))"
proof (cases s)
  case (Pair b h)
  show ?thesis unfolding Pair
    by (cases c)
       (simp_all add: fromRequest_def fromRawRequest_def withUser_def withBusiness_def
          withPerformance_def withFeatureFlags_def withError_def withStatusCode_def enrich_def
          build_def enrichEvent_def setEventError_def Let_def merge_enrichment_def
          split: option.splits)
qed

lemma call_trace_id:
  "\<not> sets_request c \<Longrightarrow> trace_id (event (fst (call c s))) = trace_id (event (fst s))"
proof (cases s)
  case (Pair b h)
  assume "\<not> sets_request c"
  then show ?thesis unfolding Pair
    by (cases c)
       (simp_all add: withUser_def withBusiness_def
          withPerformance_def withFeatureFlags_def withError_def withStatusCode_def enrich_def
          build_def enrichEvent_def setEventError_def Let_def merge_enrichment_def
          split: option.splits)
qed

lemma calls_event_id: "event_id (event (fst (calls cs s))) = event_id (event (fst s))"
  by (induction cs rule: rev_induct) (simp_all add: calls_snoc call_event_id, simp add: calls_def)

lemma calls_trace_id:
  "\<forall>c \<in> set cs. \<not> sets_request c \<Longrightarrow>
     trace_id (event (fst (calls cs s))) = trace_id (event (fst s))"
  by (induction cs rule: rev_induct) (simp_all add: calls_snoc call_trace_id, simp add: calls_def)

text \<open>
  C2 (as amended). The constructor assigns \<open>event_id\<close> and \<open>trace_id\<close> from two
  fresh UUIDs. No later call of the builder or of the context changes \<open>event_id\<close>, and
  none but \<open>fromRequest\<close> and \<open>fromRawRequest\<close> changes \<open>trace_id\<close>.
  \<open>fromRawRequest\<close> replaces \<open>trace_id\<close> by a non-empty \<open>traceId\<close> of its
  argument and leaves it alone otherwise. \<open>fromRequest\<close> always assigns \<open>trace_id\<close>:
  the first non-empty one of its \<open>traceId\<close> argument, the \<open>x-trace-id\<close> header and
  the \<open>x-request-id\<close> header, and a newly generated identifier when there is none.
\<close>

theorem ids_assigned_at_construction:
  "event_id (event (new_WideEventBuilder cfg env now stamp uuid1 uuid2)) = generateEventId uuid1 \<and>
   trace_id (event (new_WideEventBuilder cfg env now stamp uuid1 uuid2)) = generateTraceId uuid2 \<and>
   event_id (event (fst (calls cs (b, h)))) = event_id (event b) \<and>
   ((\<forall>c \<in> set cs. \<not> sets_request c) \<longrightarrow>
      trace_id (event (fst (calls cs (b, h)))) = trace_id (event b)) \<and>
   trace_id (event (fromRawRequest details b)) =
     (case traceId details of
        None \<Rightarrow> trace_id (event b)
      | Some t \<Rightarrow> if t = [] then trace_id (event b) else t) \<and>
   trace_id (event (fromRequest req tid uuid b)) =
     (if truthy tid then the tid
      else if truthy (headers req ''x-trace-id'') then the (headers req ''x-trace-id'')
      else if truthy (headers req ''x-request-id'') then the (headers req ''x-request-id'')
      else generateTraceId uuid)"
proof -
  have 1: "event_id (event (fst (calls cs (b, h)))) = event_id (event b)"
    using calls_event_id [of cs "(b, h)"] by simp
  have 2: "(\<forall>c \<in> set cs. \<not> sets_request c) \<longrightarrow>
      trace_id (event (fst (calls cs (b, h)))) = trace_id (event b)"
    using calls_trace_id [of cs "(b, h)"] by simp
  have 3: "trace_id (event (fromRawRequest details b)) =
     (case traceId details of
        None \<Rightarrow> trace_id (event b)
      | Some t \<Rightarrow> if t = [] then trace_id (event b) else t)"
    by (simp add: fromRawRequest_def Let_def truthy_def split: option.splits)
  have 4: "trace_id (event (fromRequest req tid uuid b)) =
     (if truthy tid then the tid
      else if truthy (headers req ''x-trace-id'') then the (headers req ''x-trace-id'')
      else if truthy (headers req ''x-request-id'') then the (headers req ''x-request-id'')
      else generateTraceId uuid)"
    by (auto simp add: fromRequest_def js_or_def js_or_str_def truthy_def split: option.splits)
  show ?thesis
    using 1 2 3 4 by (simp add: new_WideEventBuilder_def createBaseEvent_def)
qed

text \<open>
  A fresh builder, then four calls that do not set the request: both identifiers are
  the constructor's.
\<close>

theorem ids_assigned_at_construction_witness:
  "event_id (event b0) = ''evt_1111111122223333'' \<and>
   trace_id (event b0) = ''aaaaaaaabbbbccccddddeeeeeeeeeeee'' \<and>
   event_id (event (fst (calls request_calls0 (b0, host0)))) = ''evt_1111111122223333'' \<and>
   trace_id (event (fst (calls request_calls0 (b0, host0)))) = ''aaaaaaaabbbbccccddddeeeeeeeeeeee''"
  using ids_assigned_at_construction
    [of cfg0 Map.empty 1000 "''2025-01-10T12:00:00.000Z''"
       "''11111111-2222-3333-4444-555555555555''" "''aaaaaaaa-bbbb-cccc-dddd-eeeeeeeeeeee''"
       request_calls0 b0 host0]
  by (simp add: b0_def request_calls0_def generateEventId_def generateTraceId_def
      strip_hyphens_def)

text \<open>
  The claim as first stated fails: with no \<open>traceId\<close> argument and neither header,
  \<open>fromRequest\<close> replaces the constructor's \<open>trace_id\<close> by a newly generated one.
\<close>

theorem fromRequest_replaces_trace_id:
  "headers req0 ''x-trace-id'' = None \<and> headers req0 ''x-request-id'' = None \<and>
   trace_id (event b0) = ''aaaaaaaabbbbccccddddeeeeeeeeeeee'' \<and>
   trace_id (event (fromRequest req0 None ''99999999-8888-7777-6666-555555555555'' b0)) =
     ''99999999888877776666555555555555''"
  by (simp add: b0_def req0_def new_WideEventBuilder_def createBaseEvent_def fromRequest_def
      js_or_def js_or_str_def truthy_def generateTraceId_def strip_hyphens_def)

section \<open>Enrichment through the context\<close>

lemma merge_enrichment_user:
  "user (merge_enrichment d e) =
     (case data_user d of None \<Rightarrow> user e | Some u \<Rightarrow> Some (spread_user (user e) u))"
  by (simp add: merge_enrichment_def Let_def split: option.splits)

text \<open>
  C8. With no event in scope \<open>enrichEvent\<close> returns with no event in scope and the
  data dropped; the model has no failing result because the source has no statement that
  throws there, and the only trace of the call is the console warning written when
  \<open>NODE_ENV\<close> is \<open>development\<close>. With an event in scope the host is untouched and
  the event is kept in scope with \<open>business\<close>, \<open>performance\<close> and
  \<open>feature_flags\<close> each the old mapping overwritten key by key by the data's, no old
  key lost, and with \<open>user\<close> unchanged when the data has no user, the data's user when
  the event had none, and otherwise the data's user with every optional field it lacks
  taken from the event's user. A key or field the data carries with the value
  \<open>undefined\<close> counts as carried: it overwrites the old value with \<open>undefined\<close>.
\<close>

theorem enrichEvent_merges:
  "fst (enrichEvent d None h) = None \<and>
   snd (enrichEvent d None h) =
     (if process_env h ''NODE_ENV'' = Some ''development''
      then h\<lparr> console := console h @ [WarnOutsideContext] \<rparr> else h) \<and>
   snd (enrichEvent d (Some e) h) = h \<and>
   (case fst (enrichEvent d (Some e) h) of
      None \<Rightarrow> False
    | Some e' \<Rightarrow>
        obj (business e') = obj (business e) ++ obj (data_business d) \<and>
        obj (performance e') = obj (performance e) ++ obj (data_performance d) \<and>
        obj (feature_flags e') = obj (feature_flags e) ++ obj (data_feature_flags d) \<and>
        dom (obj (business e)) \<subseteq> dom (obj (business e')) \<and>
        dom (obj (performance e)) \<subseteq> dom (obj (performance e')) \<and>
        dom (obj (feature_flags e)) \<subseteq> dom (obj (feature_flags e')) \<and>
        (case data_user d of
           None \<Rightarrow> user e' = user e
         | Some u \<Rightarrow>
             (case user e' of
                None \<Rightarrow> False
              | Some u' \<Rightarrow>
                  (case user e of
                     None \<Rightarrow> u' = u
                   | Some u0 \<Rightarrow>
                       user_id u' = user_id u \<and>
                       email u' = (case email u of None \<Rightarrow> email u0 | Some x \<Rightarrow> Some x) \<and>
                       role u' = (case role u of None \<Rightarrow> role u0 | Some x \<Rightarrow> Some x) \<and>
                       subscription u' =
                         (case subscription u of None \<Rightarrow> subscription u0 | Some x \<Rightarrow> Some x) \<and>
                       account_age_days u' =
                         (case account_age_days u of
                            None \<Rightarrow> account_age_days u0 | Some x \<Rightarrow> Some x)))))"
proof -
  have n: "fst (enrichEvent d None h) = None \<and>
     snd (enrichEvent d None h) =
     (if process_env h ''NODE_ENV'' = Some ''development''
      then h\<lparr> console := console h @ [WarnOutsideContext] \<rparr> else h)"
    by (simp add: enrichEvent_def)
  have s: "enrichEvent d (Some e) h = (Some (merge_enrichment d e), h)"
    by (simp add: enrichEvent_def)
  have u: "(case data_user d of
           None \<Rightarrow> user (merge_enrichment d e) = user e
         | Some u \<Rightarrow>
             (case user (merge_enrichment d e) of
                None \<Rightarrow> False
              | Some u' \<Rightarrow>
                  (case user e of
                     None \<Rightarrow> u' = u
                   | Some u0 \<Rightarrow>
                       user_id u' = user_id u \<and>
                       email u' = (case email u of None \<Rightarrow> email u0 | Some x \<Rightarrow> Some x) \<and>
                       role u' = (case role u of None \<Rightarrow> role u0 | Some x \<Rightarrow> Some x) \<and>
                       subscription u' =
                         (case subscription u of None \<Rightarrow> subscription u0 | Some x \<Rightarrow> Some x) \<and>
                       account_age_days u' =
                         (case account_age_days u of
                            None \<Rightarrow> account_age_days u0 | Some x \<Rightarrow> Some x))))"
    by (simp add: merge_enrichment_user spread_user_def spread_field_def split: option.splits)
  show ?thesis
    unfolding s using n u
    by (simp add: merge_enrichment_business merge_enrichment_performance
        merge_enrichment_feature_flags)
qed

text \<open>
  An event with a user and a \<open>dealId\<close>, enriched with an email passed as
  \<open>undefined\<close>, a role, a new subscription, an \<open>action\<close> and a flag: the email is
  now \<open>undefined\<close>; the account age, which the data does not carry, and the
  \<open>dealId\<close> survive.
\<close>

theorem enrichEvent_merges_witness:
  "fst (enrichEvent data0 None host0) = None \<and>
   snd (enrichEvent data0 None host0) = host0 \<and>
   (case fst (enrichEvent data0 (Some enriched0) host0) of
      None \<Rightarrow> False
    | Some e' \<Rightarrow>
        obj (business e') ''dealId'' = Some (Defined (JString ''deal_1'')) \<and>
        obj (business e') ''action'' = Some (Defined (JString ''quote_sent'')) \<and>
        obj (feature_flags e') ''beta'' = Some (Defined True) \<and>
        user e' = Some \<lparr> user_id = ''user_123'', email = Some Undefined,
                          role = Some (Defined ''admin''),
                          subscription = Some (Defined ''premium''),
                          account_age_days = Some (Defined 30) \<rparr>)"
proof -
  note t = enrichEvent_merges [where d = data0 and e = enriched0 and h = host0]
  obtain e' where e': "fst (enrichEvent data0 (Some enriched0) host0) = Some e'"
    using t by (cases "fst (enrichEvent data0 (Some enriched0) host0)") simp_all
  have env: "process_env host0 ''NODE_ENV'' = None"
    by (simp add: host0_def fresh_host_def)
  have b: "obj (business enriched0) = [''dealId'' \<mapsto> Defined (JString ''deal_1'')]"
    by (simp add: enriched0_def withBusiness_def withUser_def b0_def new_WideEventBuilder_def
        createBaseEvent_def spread_def obj_def)
  have f: "obj (feature_flags enriched0) = Map.empty"
    by (simp add: enriched0_def withBusiness_def withUser_def b0_def new_WideEventBuilder_def
        createBaseEvent_def spread_def obj_def)
  have u: "user enriched0 = Some user0"
    by (simp add: enriched0_def withBusiness_def withUser_def)
  have d: "data_user data0 = Some \<lparr> user_id = ''user_123'', email = Some Undefined,
                                  role = Some (Defined ''admin''),
                                  subscription = Some (Defined ''premium''),
                                  account_age_days = None \<rparr>"
    "obj (data_business data0) = [''action'' \<mapsto> Defined (JString ''quote_sent'')]"
    "obj (data_feature_flags data0) = [''beta'' \<mapsto> Defined True]"
    by (simp_all add: data0_def obj_def)
  have c: "user e' = Some \<lparr> user_id = ''user_123'', email = Some Undefined,
                          role = Some (Defined ''admin''),
                          subscription = Some (Defined ''premium''),
                          account_age_days = Some (Defined 30) \<rparr>"
    using t by (cases "user e'") (simp_all add: e' d u user0_def)
  show ?thesis
    using t by (simp add: e' d b f c env)
qed

text \<open>
  C10. \<open>enrichEvent\<close> with an event in scope leaves that event in scope and changes
  none of its fields \<open>event_id\<close>, \<open>trace_id\<close>, \<open>timestamp\<close>, \<open>request\<close>,
  \<open>service\<close>, \<open>error\<close> and \<open>outcome\<close>.
\<close>

theorem enrichEvent_frame:
  "(case fst (enrichEvent d (Some e) h) of
      None \<Rightarrow> False
    | Some e' \<Rightarrow>
        event_id e' = event_id e \<and> trace_id e' = trace_id e \<and> timestamp e' = timestamp e \<and>
        request e' = request e \<and> service e' = service e \<and> error e' = error e \<and>
        outcome e' = outcome e)"
  by (simp add: enrichEvent_def merge_enrichment_def Let_def split: option.splits)

text \<open>The same enrichment of the same event: the seven fields read as the constructor set them.\<close>

theorem enrichEvent_frame_witness:
  "(case fst (enrichEvent data0 (Some enriched0) host0) of
      None \<Rightarrow> False
    | Some e' \<Rightarrow>
        event_id e' = ''evt_1111111122223333'' \<and>
        trace_id e' = ''aaaaaaaabbbbccccddddeeeeeeeeeeee'' \<and>
        timestamp e' = ''2025-01-10T12:00:00.000Z'' \<and>
        status_code (request e') = 200 \<and> name (service e') = ''svc'' \<and> error e' = None \<and>
        outcome e' = Success)"
proof -
  have e: "event_id enriched0 = ''evt_1111111122223333''"
    "trace_id enriched0 = ''aaaaaaaabbbbccccddddeeeeeeeeeeee''"
    "timestamp enriched0 = ''2025-01-10T12:00:00.000Z''"
    "status_code (request enriched0) = 200" "name (service enriched0) = ''svc''"
    "error enriched0 = None" "outcome enriched0 = Success"
    by (simp_all add: enriched0_def withBusiness_def withUser_def b0_def new_WideEventBuilder_def
        createBaseEvent_def generateEventId_def generateTraceId_def strip_hyphens_def cfg0_def)
  show ?thesis
    using enrichEvent_frame [where d = data0 and e = enriched0 and h = host0]
    by (cases "fst (enrichEvent data0 (Some enriched0) host0)") (simp_all add: e)
qed

section \<open>The default sampling rule\<close>




section \<open>The transport: queue, timer and fetch\<close>

text \<open>
  The invariant holds of a new adapter and every step keeps it, following the usual
  scheme: one lemma per operation, then induction over the list of steps.
\<close>

lemma run_snoc: "run throws (steps @ [st]) s = step throws st (run throws steps s)"
  by (simp add: run_def)

lemma run_Cons: "run throws (st # steps) s = run throws steps (step throws st s)"
  by (simp add: run_def)

lemma run_Nil: "run throws [] s = s"
  by (simp add: run_def)

lemma send_result:
  "send throws ev a h =
     (if debug a \<and> throws ev then Inl TypeError
      else
        Inr (let h1 = (if debug a then h\<lparr> console := console h @ [LogEvent ev] \<rparr> else h)
             in if token a = [] then
                  (a,
                   if process_env h ''NODE_ENV'' = Some ''development''
                   then h1\<lparr> console := console h1 @
                             [LogLocal (outcome ev) (req_method (request ev)) (path (request ev))
                                (duration_ms (request ev))] \<rparr>
                   else h1)
                else if length (pendingEvents a @ [ev]) \<ge> 10
                then flush throws (a\<lparr> pendingEvents := pendingEvents a @ [ev] \<rparr>) h1
                else if flushTimeout a = None
                then (a\<lparr> pendingEvents := pendingEvents a @ [ev],
                         flushTimeout := Some (next_timer h) \<rparr>,
                      h1\<lparr> timers := timers h @ [(next_timer h, 100, FlushCallback)],
                          next_timer := Suc (next_timer h) \<rparr>)
                else (a\<lparr> pendingEvents := pendingEvents a @ [ev] \<rparr>, h1)))"
  by (simp add: send_def Let_def setTimeout_def)

lemma flush_fixed:
  "token (fst (flush throws a h)) = token a \<and> dataset (fst (flush throws a h)) = dataset a \<and>
   debug (fst (flush throws a h)) = debug a \<and> baseUrl (fst (flush throws a h)) = baseUrl a"
  by (simp add: flush_def Let_def split: option.splits)

lemma send_fixed:
  assumes "send throws ev a h = Inr s'"
  shows "token (fst s') = token a \<and> dataset (fst s') = dataset a \<and>
     debug (fst s') = debug a \<and> baseUrl (fst s') = baseUrl a"
  using assms by (auto simp add: send_result Let_def flush_fixed split: if_splits)

lemma flush_resume_adapter: "fst (flush_resume res evs a h) = a"
  by (simp add: flush_resume_def split: FetchResult.splits sum.splits)

lemma flush_resume_host:
  "timers (snd (flush_resume res evs a h)) = timers h \<and>
   fetches (snd (flush_resume res evs a h)) = fetches h \<and>
   next_timer (snd (flush_resume res evs a h)) = next_timer h"
  by (simp add: flush_resume_def split: FetchResult.splits sum.splits)

lemma timer_fires_fixed:
  "token (fst (timer_fires throws t a h)) = token a \<and>
   dataset (fst (timer_fires throws t a h)) = dataset a \<and>
   debug (fst (timer_fires throws t a h)) = debug a \<and>
   baseUrl (fst (timer_fires throws t a h)) = baseUrl a"
proof (cases "find (\<lambda>p. fst p = t) (timers h)")
  case None
  then show ?thesis by (simp add: timer_fires_def)
next
  case (Some p)
  obtain t' d cb where p: "p = (t', d, cb)" by (cases p)
  show ?thesis using Some p by (cases cb) (simp add: timer_fires_def flush_fixed)
qed

lemma step_fixed:
  "token (fst (step throws st s)) = token (fst s) \<and>
   dataset (fst (step throws st s)) = dataset (fst s) \<and>
   debug (fst (step throws st s)) = debug (fst s) \<and>
   baseUrl (fst (step throws st s)) = baseUrl (fst s)"
proof (cases s)
  case (Pair a h)
  show ?thesis
  proof (cases st)
    case (Send ev)
    show ?thesis
    proof (cases "send throws ev a h")
      case (Inl thrown)
      then show ?thesis by (simp add: Pair Send)
    next
      case (Inr s')
      then show ?thesis using send_fixed [OF Inr] by (simp add: Pair Send)
    qed
  next
    case Flush
    then show ?thesis by (simp add: Pair flush_fixed)
  next
    case (TimerFires t)
    then show ?thesis by (simp add: Pair timer_fires_fixed)
  next
    case (FetchSettles k res)
    then show ?thesis by (simp add: Pair flush_resume_adapter)
  qed
qed

lemma run_fixed:
  "token (fst (run throws steps s)) = token (fst s) \<and>
   dataset (fst (run throws steps s)) = dataset (fst s) \<and>
   debug (fst (run throws steps s)) = debug (fst s) \<and>
   baseUrl (fst (run throws steps s)) = baseUrl (fst s)"
  by (induction steps rule: rev_induct) (simp_all add: run_Nil run_snoc step_fixed)

lemma inv_boot: "adapter_inv (boot cfg env)"
  by (simp add: adapter_inv_def boot_def new_AxiomAdapter_def fresh_host_def Let_def)

lemma flush_cancels:
  assumes "timers h = [] \<or>
      timers h = (case flushTimeout a of None \<Rightarrow> [] | Some t \<Rightarrow> [(t, 100, FlushCallback)])"
  shows "flushTimeout (fst (flush throws a h)) = None \<and> timers (snd (flush throws a h)) = [] \<and>
     pendingEvents (fst (flush throws a h)) = []"
  using assms
  by (auto simp add: flush_def clearTimeout_def Let_def split: option.splits)

lemma flush_effect:
  assumes "token a = [] \<longrightarrow> pendingEvents a = []"
  shows "fetches (snd (flush throws a h)) =
       (if pendingEvents a = [] then fetches h
        else if list_ex throws (pendingEvents a) then fetches h
        else fetches h @
          [\<lparr> url = baseUrl a @ ''/v1/datasets/'' @ dataset a @ ''/ingest'',
             http_method = ''POST'', authorization = ''Bearer '' @ token a,
             content_type = ''application/json'', body = pendingEvents a \<rparr>]) \<and>
     console (snd (flush throws a h)) =
       (if pendingEvents a \<noteq> [] \<and> list_ex throws (pendingEvents a)
        then console h @ [ErrorSending ''TypeError''] else console h)"
  using assms
  by (auto simp add: flush_def clearTimeout_def Let_def split: option.splits)

lemma inv_flush:
  assumes "timers h = [] \<or>
      timers h = (case flushTimeout a of None \<Rightarrow> [] | Some t \<Rightarrow> [(t, 100, FlushCallback)])"
  shows "adapter_inv (flush throws a h)"
  using flush_cancels [OF assms] by (simp add: adapter_inv_def)

lemma inv_send:
  assumes "adapter_inv (a, h)" and "send throws ev a h = Inr s'"
  shows "adapter_inv s'"
proof -
  define h1 where "h1 = (if debug a then h\<lparr> console := console h @ [LogEvent ev] \<rparr> else h)"
  have t1: "timers h1 = timers h" and n1: "next_timer h1 = next_timer h"
    by (simp_all add: h1_def)
  have ok: "\<not> (debug a \<and> throws ev)"
    using assms(2) by (auto simp add: send_result)
  show ?thesis
  proof (cases "token a = []")
    case True
    then show ?thesis
      using assms ok by (auto simp add: send_result adapter_inv_def Let_def split: if_splits)
  next
    case False
    show ?thesis
    proof (cases "length (pendingEvents a @ [ev]) \<ge> 10")
      case True
      have "adapter_inv (flush throws (a\<lparr> pendingEvents := pendingEvents a @ [ev] \<rparr>) h1)"
        by (rule inv_flush) (use assms(1) t1 in \<open>simp add: adapter_inv_def\<close>)
      then show ?thesis
        using assms(2) ok False True by (simp add: send_result Let_def h1_def)
    next
      case short: False
      then show ?thesis
        using assms ok False
        by (auto simp add: send_result adapter_inv_def Let_def split: option.splits if_splits)
    qed
  qed
qed

lemma timer_fires_reachable:
  assumes "adapter_inv (a, h)"
  shows "timer_fires throws t a h =
     (if flushTimeout a = Some t then flush throws a (h\<lparr> timers := [] \<rparr>) else (a, h))"
  using assms
  by (auto simp add: adapter_inv_def timer_fires_def split: option.splits)

lemma inv_timer_fires:
  assumes "adapter_inv (a, h)"
  shows "adapter_inv (timer_fires throws t a h)"
proof (cases "flushTimeout a = Some t")
  case True
  have "adapter_inv (flush throws a (h\<lparr> timers := [] \<rparr>))"
    by (rule inv_flush) simp
  then show ?thesis using True by (simp add: timer_fires_reachable [OF assms])
next
  case False
  then show ?thesis using assms by (simp add: timer_fires_reachable [OF assms])
qed

lemma inv_flush_resume:
  assumes "adapter_inv (a, h)"
  shows "adapter_inv (flush_resume res evs a h)"
  using assms by (simp add: adapter_inv_def flush_resume_adapter flush_resume_host)

lemma inv_step:
  assumes "adapter_inv s"
  shows "adapter_inv (step throws st s)"
proof (cases s)
  case (Pair a h)
  have i: "adapter_inv (a, h)" using assms Pair by simp
  have f: "adapter_inv (flush throws a h)"
    by (rule inv_flush) (use i in \<open>simp add: adapter_inv_def\<close>)
  show ?thesis
  proof (cases st)
    case (Send ev)
    show ?thesis
    proof (cases "send throws ev a h")
      case (Inl thrown)
      then show ?thesis using i by (simp add: Pair Send)
    next
      case (Inr s')
      then show ?thesis using inv_send [OF i Inr] by (simp add: Pair Send)
    qed
  next
    case Flush
    then show ?thesis using f by (simp add: Pair)
  next
    case (TimerFires t)
    then show ?thesis using inv_timer_fires [OF i] by (simp add: Pair)
  next
    case (FetchSettles k res)
    then show ?thesis using inv_flush_resume [OF i] i by (simp add: Pair)
  qed
qed

lemma inv_run:
  assumes "adapter_inv s"
  shows "adapter_inv (run throws steps s)"
  using assms by (induction steps rule: rev_induct) (simp_all add: run_Nil run_snoc inv_step)

lemma inv_reachable: "adapter_inv (run throws steps (boot cfg env))"
  by (rule inv_run [OF inv_boot])

lemma boot_fields:
  "token (fst (boot cfg env)) = js_or_str (js_or (cfg_token cfg) (env ''AXIOM_TOKEN'')) [] \<and>
   baseUrl (fst (boot cfg env)) = ''https://api.axiom.co'' \<and>
   dataset (fst (boot cfg env)) =
     js_or_str (js_or (cfg_dataset cfg) (env ''AXIOM_DATASET'')) ''production''"
  by (simp add: boot_def new_AxiomAdapter_def fresh_host_def Let_def)

lemma step_send_short:
  assumes "token a \<noteq> []" and "length (pendingEvents a) + 1 < 10"
  shows "pendingEvents (fst (step throws (Send ev) (a, h))) =
       pendingEvents a @ filter (\<lambda>e. \<not> (debug a \<and> throws e)) [ev] \<and>
     fetches (snd (step throws (Send ev) (a, h))) = fetches h"
  using assms by (simp add: send_result Let_def)

lemma sends_accumulate:
  assumes "token (fst s) \<noteq> []" and "length (pendingEvents (fst s)) + length evs < 10"
  shows "pendingEvents (fst (run throws (map Send evs) s)) =
       pendingEvents (fst s) @ filter (\<lambda>e. \<not> (debug (fst s) \<and> throws e)) evs \<and>
     fetches (snd (run throws (map Send evs) s)) = fetches (snd s)"
  using assms
proof (induction evs arbitrary: s)
  case Nil
  show ?case by (simp add: run_Nil)
next
  case (Cons ev evs)
  obtain a h where s: "s = (a, h)" by (cases s)
  define s1 where "s1 = step throws (Send ev) (a, h)"
  have tk: "token a \<noteq> []" and len: "length (pendingEvents a) + 1 < 10"
    using Cons.prems by (simp_all add: s)
  have one: "pendingEvents (fst s1) =
       pendingEvents a @ filter (\<lambda>e. \<not> (debug a \<and> throws e)) [ev] \<and>
     fetches (snd s1) = fetches h"
    unfolding s1_def by (rule step_send_short [OF tk len])
  have fx: "token (fst s1) = token a \<and> debug (fst s1) = debug a"
    using step_fixed [of throws "Send ev" "(a, h)"] by (simp add: s1_def)
  have r: "run throws (map Send (ev # evs)) s = run throws (map Send evs) s1"
    unfolding s1_def s by (simp only: list.map run_Cons)
  have "token (fst s1) \<noteq> []"
    using tk fx by simp
  moreover have "length (pendingEvents (fst s1)) + length evs < 10"
    using one Cons.prems by (simp add: s)
  ultimately have "pendingEvents (fst (run throws (map Send evs) s1)) =
      pendingEvents (fst s1) @ filter (\<lambda>e. \<not> (debug (fst s1) \<and> throws e)) evs \<and>
     fetches (snd (run throws (map Send evs) s1)) = fetches (snd s1)"
    by (rule Cons.IH)
  then show ?case
    unfolding r using one fx by (simp add: s)
qed

text \<open>The adapter after no, one, two and nine sends, and single calls on those states, computed.\<close>

lemma throws_bigint_examples:
  "\<not> throws_bigint plain_event" "\<not> throws_bigint enriched0" "\<not> throws_bigint (event b0)"
  "throws_bigint bigint_event"
  by (simp_all add: throws_bigint_def is_bigint_def plain_event_def enriched0_def bigint_event_def
      build_def withStatusCode_def withBusiness_def withUser_def b0_def new_WideEventBuilder_def
      createBaseEvent_def spread_def obj_def Let_def)

lemma boot_cfg0:
  "boot cfg0 Map.empty =
     (\<lparr> dataset = ''production'', token = ''xapt-1'', debug = False,
        baseUrl = ''https://api.axiom.co'', pendingEvents = [],
        flushTimeout = None \<rparr>,
      \<lparr> process_env = Map.empty, console = [], timers = [], next_timer = 0,
        fetches = [] \<rparr>)"
  by (simp add: boot_def new_AxiomAdapter_def fresh_host_def cfg0_def js_or_def js_or_str_def
      truthy_def Let_def)




lemma two_sends:
  "run throws_bigint [Send plain_event, Send enriched0] (boot cfg0 Map.empty) =
     (\<lparr> dataset = ''production'', token = ''xapt-1'', debug = False,
        baseUrl = ''https://api.axiom.co'', pendingEvents = [plain_event, enriched0],
        flushTimeout = Some 0 \<rparr>,
      \<lparr> process_env = Map.empty, console = [], timers = [(0, 100, FlushCallback)], next_timer = Suc 0,
        fetches = [] \<rparr>)"
  by (simp add: boot_cfg0 run_def send_result Let_def)


lemma bigint_queued:
  "run throws_bigint [Send bigint_event] (boot cfg0 Map.empty) =
     (\<lparr> dataset = ''production'', token = ''xapt-1'', debug = False,
        baseUrl = ''https://api.axiom.co'', pendingEvents = [bigint_event],
        flushTimeout = Some 0 \<rparr>,
      \<lparr> process_env = Map.empty, console = [], timers = [(0, 100, FlushCallback)], next_timer = Suc 0,
        fetches = [] \<rparr>)"
  by (simp add: boot_cfg0 run_def send_result Let_def)

lemma flush_two:
  "flush throws_bigint
     \<lparr> dataset = ''production'', token = ''xapt-1'', debug = False,
        baseUrl = ''https://api.axiom.co'', pendingEvents = [plain_event, enriched0],
        flushTimeout = Some 0 \<rparr>
     \<lparr> process_env = Map.empty, console = [], timers = [(0, 100, FlushCallback)], next_timer = Suc 0,
        fetches = [] \<rparr> =
   (\<lparr> dataset = ''production'', token = ''xapt-1'', debug = False,
        baseUrl = ''https://api.axiom.co'', pendingEvents = [],
        flushTimeout = None \<rparr>,
    \<lparr> process_env = Map.empty, console = [], timers = [], next_timer = Suc 0,
        fetches = [\<lparr> url = ''https://api.axiom.co/v1/datasets/production/ingest'',
           http_method = ''POST'', authorization = ''Bearer xapt-1'',
           content_type = ''application/json'', body = [plain_event, enriched0] \<rparr>] \<rparr>)"
  by (simp add: flush_def clearTimeout_def Let_def throws_bigint_examples)

lemma flush_bigint:
  "flush throws_bigint
     \<lparr> dataset = ''production'', token = ''xapt-1'', debug = False,
        baseUrl = ''https://api.axiom.co'', pendingEvents = [bigint_event],
        flushTimeout = Some 0 \<rparr>
     \<lparr> process_env = Map.empty, console = [], timers = [(0, 100, FlushCallback)], next_timer = Suc 0,
        fetches = [] \<rparr> =
   (\<lparr> dataset = ''production'', token = ''xapt-1'', debug = False,
        baseUrl = ''https://api.axiom.co'', pendingEvents = [],
        flushTimeout = None \<rparr>,
    \<lparr> process_env = Map.empty, console = [ErrorSending ''TypeError''], timers = [], next_timer = Suc 0,
        fetches = [] \<rparr>)"
  by (simp add: flush_def clearTimeout_def Let_def throws_bigint_examples)

lemma send_during_fetch:
  "run throws_bigint [Send (event b0), FetchSettles 0 (Rejected ''ECONNRESET'')]
     (\<lparr> dataset = ''production'', token = ''xapt-1'', debug = False,
        baseUrl = ''https://api.axiom.co'', pendingEvents = [],
        flushTimeout = None \<rparr>,
      \<lparr> process_env = Map.empty, console = [], timers = [], next_timer = Suc 0,
        fetches = [\<lparr> url = ''https://api.axiom.co/v1/datasets/production/ingest'',
           http_method = ''POST'', authorization = ''Bearer xapt-1'',
           content_type = ''application/json'', body = [plain_event, enriched0] \<rparr>] \<rparr>) =
   (\<lparr> dataset = ''production'', token = ''xapt-1'', debug = False,
        baseUrl = ''https://api.axiom.co'', pendingEvents = [event b0],
        flushTimeout = Some (Suc 0) \<rparr>,
    \<lparr> process_env = Map.empty, console = [ErrorSending ''ECONNRESET''], timers = [(Suc 0, 100, FlushCallback)], next_timer = Suc (Suc 0),
        fetches = [\<lparr> url = ''https://api.axiom.co/v1/datasets/production/ingest'',
           http_method = ''POST'', authorization = ''Bearer xapt-1'',
           content_type = ''application/json'', body = [plain_event, enriched0] \<rparr>] \<rparr>)"
  by (simp add: run_def send_result flush_resume_def Let_def)







text \<open>
  C5 (as amended). In every state an adapter can reach, \<open>flush\<close> leaves no timer
  scheduled and the queue empty. If the queue was empty no fetch is made. Otherwise the
  batch is the whole former queue: if serialising it throws, no fetch is made and the
  \<open>catch\<close> writes an error line; if not, exactly one fetch is made, a POST to the
  dataset's ingest URL with the bearer token, carrying the batch. When that fetch settles,
  however it settles, the adapter is as it was, so nothing returns to the queue, and no
  further fetch is made; a rejected fetch and a response that is not ok each write an
  error line to the console. Of fewer than ten events sent while the fetch is pending,
  those whose \<open>send\<close> did not throw are, after it has settled, exactly the queue, and
  the fetches made are still the same.
\<close>

theorem flush_swaps_queue:
  "(case run throws steps (boot cfg env) of
      (a, h) \<Rightarrow>
        (case flush throws a h of
           (a', h') \<Rightarrow>
             flushTimeout a' = None \<and> timers h' = [] \<and> pendingEvents a' = [] \<and>
             fetches h' =
               (if pendingEvents a = [] then fetches h
                else if list_ex throws (pendingEvents a) then fetches h
                else fetches h @
                  [\<lparr> url = ''https://api.axiom.co/v1/datasets/'' @ dataset a @ ''/ingest'',
                     http_method = ''POST'', authorization = ''Bearer '' @ token a,
                     content_type = ''application/json'', body = pendingEvents a \<rparr>]) \<and>
             console h' =
               (if pendingEvents a \<noteq> [] \<and> list_ex throws (pendingEvents a)
                then console h @ [ErrorSending ''TypeError''] else console h) \<and>
             fst (flush_resume res batch a' h') = a' \<and>
             fetches (snd (flush_resume res batch a' h')) = fetches h' \<and>
             console (snd (flush_resume (Rejected why) batch a' h')) =
               console h' @ [ErrorSending why] \<and>
             console (snd (flush_resume (Resolved (response\<lparr> resp_ok := False \<rparr>)) batch a' h')) =
               console h' @
               (case resp_text response of
                  Inl thrown \<Rightarrow> [ErrorSending thrown]
                | Inr errorText \<Rightarrow>
                    ErrorFailedToSend (resp_status response) errorText #
                    (if truthy (limit_remaining response)
                     then [WarnLimitRemaining (the (limit_remaining response))] else [])) \<and>
             (pendingEvents a \<noteq> [] \<and> length evs < 10 \<longrightarrow>
                (case run throws (map Send evs @ [FetchSettles (length (fetches h)) res]) (a', h') of
                   (a'', h'') \<Rightarrow>
                     pendingEvents a'' = filter (\<lambda>e. \<not> (debug a \<and> throws e)) evs \<and>
                     fetches h'' = fetches h'))))"
proof -
  obtain a h where s: "run throws steps (boot cfg env) = (a, h)"
    by (cases "run throws steps (boot cfg env)")
  obtain a' h' where f: "flush throws a h = (a', h')"
    by (cases "flush throws a h")
  have inv: "adapter_inv (a, h)"
    using inv_reachable [of throws steps cfg env] by (simp add: s)
  have tm: "timers h = [] \<or>
      timers h = (case flushTimeout a of None \<Rightarrow> [] | Some t \<Rightarrow> [(t, 100, FlushCallback)])"
    and tk: "token a = [] \<longrightarrow> pendingEvents a = []"
    using inv by (simp_all add: adapter_inv_def)
  have base: "baseUrl a = ''https://api.axiom.co''"
    using run_fixed [of throws steps "boot cfg env"] boot_fields [of cfg env] by (simp add: s)
  have 1: "flushTimeout a' = None \<and> timers h' = [] \<and> pendingEvents a' = []"
    using flush_cancels [OF tm, of throws] by (simp add: f)
  have 2: "fetches h' =
               (if pendingEvents a = [] then fetches h
                else if list_ex throws (pendingEvents a) then fetches h
                else fetches h @
                  [\<lparr> url = ''https://api.axiom.co/v1/datasets/'' @ dataset a @ ''/ingest'',
                     http_method = ''POST'', authorization = ''Bearer '' @ token a,
                     content_type = ''application/json'', body = pendingEvents a \<rparr>]) \<and>
             console h' =
               (if pendingEvents a \<noteq> [] \<and> list_ex throws (pendingEvents a)
                then console h @ [ErrorSending ''TypeError''] else console h)"
    using flush_effect [OF tk, of throws h] by (simp add: f base)
  have 3: "fst (flush_resume res batch a' h') = a' \<and>
      fetches (snd (flush_resume res batch a' h')) = fetches h'"
    by (simp add: flush_resume_adapter flush_resume_host)
  have 4: "console (snd (flush_resume (Rejected why) batch a' h')) =
               console h' @ [ErrorSending why]"
    by (simp add: flush_resume_def)
  have 5: "console (snd (flush_resume (Resolved (response\<lparr> resp_ok := False \<rparr>)) batch a' h')) =
               console h' @
               (case resp_text response of
                  Inl thrown \<Rightarrow> [ErrorSending thrown]
                | Inr errorText \<Rightarrow>
                    ErrorFailedToSend (resp_status response) errorText #
                    (if truthy (limit_remaining response)
                     then [WarnLimitRemaining (the (limit_remaining response))] else []))"
    by (simp add: flush_resume_def truthy_def split: sum.splits option.splits)
  have 6: "pendingEvents a \<noteq> [] \<and> length evs < 10 \<longrightarrow>
                (case run throws (map Send evs @ [FetchSettles (length (fetches h)) res]) (a', h') of
                   (a'', h'') \<Rightarrow>
                     pendingEvents a'' = filter (\<lambda>e. \<not> (debug a \<and> throws e)) evs \<and>
                     fetches h'' = fetches h')"
  proof
    assume p: "pendingEvents a \<noteq> [] \<and> length evs < 10"
    have fx: "token a' = token a \<and> debug a' = debug a"
      using flush_fixed [of throws a h] by (simp add: f)
    have "token a' \<noteq> []"
      using p tk fx by simp
    then have acc: "pendingEvents (fst (run throws (map Send evs) (a', h'))) =
          filter (\<lambda>e. \<not> (debug a \<and> throws e)) evs \<and>
        fetches (snd (run throws (map Send evs) (a', h'))) = fetches h'"
      using sends_accumulate [of "(a', h')" evs throws] p 1 fx by simp
    obtain a2 h2 where r: "run throws (map Send evs) (a', h') = (a2, h2)"
      by (cases "run throws (map Send evs) (a', h')")
    have st: "fst (step throws (FetchSettles (length (fetches h)) res) (a2, h2)) = a2 \<and>
        fetches (snd (step throws (FetchSettles (length (fetches h)) res) (a2, h2))) = fetches h2"
      by (simp add: flush_resume_adapter flush_resume_host)
    show "case run throws (map Send evs @ [FetchSettles (length (fetches h)) res]) (a', h') of
                   (a'', h'') \<Rightarrow>
                     pendingEvents a'' = filter (\<lambda>e. \<not> (debug a \<and> throws e)) evs \<and>
                     fetches h'' = fetches h'"
      using acc st unfolding run_snoc r
      by (cases "step throws (FetchSettles (length (fetches h)) res) (a2, h2)") simp
  qed
  show ?thesis
    unfolding s f prod.case using 1 2 3 4 5 6 by blast
qed

text \<open>
  Two events queued, then \<open>flush\<close>, then a third event sent before the fetch is
  rejected: the fetch carries the first two, the queue holds the third.
\<close>

theorem flush_swaps_queue_witness:
  "(case run throws_bigint [Send plain_event, Send enriched0] (boot cfg0 Map.empty) of
      (a, h) \<Rightarrow>
        pendingEvents a = [plain_event, enriched0] \<and> flushTimeout a = Some 0 \<and>
        timers h = [(0, 100, FlushCallback)] \<and> fetches h = [] \<and>
        (case flush throws_bigint a h of
           (a', h') \<Rightarrow>
             flushTimeout a' = None \<and> timers h' = [] \<and> pendingEvents a' = [] \<and>
             fetches h' =
               [\<lparr> url = ''https://api.axiom.co/v1/datasets/production/ingest'',
           http_method = ''POST'', authorization = ''Bearer xapt-1'',
           content_type = ''application/json'', body = [plain_event, enriched0] \<rparr>] \<and>
             (case run throws_bigint
                     [Send (event b0), FetchSettles 0 (Rejected ''ECONNRESET'')] (a', h') of
                (a'', h'') \<Rightarrow> pendingEvents a'' = [event b0] \<and> fetches h'' = fetches h')))"
  using flush_swaps_queue [where throws = throws_bigint
      and steps = "[Send plain_event, Send enriched0]" and cfg = cfg0
      and env = Map.empty and evs = "[event b0]" and res = "Rejected ''ECONNRESET''"]
  unfolding two_sends flush_two send_during_fetch prod.case
  by (simp add: throws_bigint_examples)

text \<open>
  The claim as first stated fails: with \<open>debug\<close> off an event holding a BigInt is
  queued, and \<open>flush\<close> of that non-empty queue makes no request; the batch is dropped
  with an error line.
\<close>

theorem flush_skips_fetch_on_bigint:
  "(case run throws_bigint [Send bigint_event] (boot cfg0 Map.empty) of
      (a, h) \<Rightarrow>
        pendingEvents a = [bigint_event] \<and> token a = ''xapt-1'' \<and> fetches h = [] \<and>
        (case flush throws_bigint a h of
           (a', h') \<Rightarrow>
             pendingEvents a' = [] \<and> fetches h' = [] \<and>
             console h' = [ErrorSending ''TypeError'']))"
  unfolding bigint_queued flush_bigint prod.case by simp




end
